theory Spec2Isabelle
  imports Main
begin

section \<open>The RAG agent of new_app.py\<close>

text \<open>
  The development follows \<^verbatim>\<open>src/new_app.py\<close>: the class \<^verbatim>\<open>RAGAgent\<close> with its
  retrieval tool, the three functions \<^verbatim>\<open>should_continue\<close>, \<^verbatim>\<open>call_llm\<close> and
  \<^verbatim>\<open>take_action\<close> that \<^verbatim>\<open>setup_agent\<close> wires into a graph, and
  \<^verbatim>\<open>ask_question\<close>.

  Three things the program uses are not part of it and are parameters here:
  \<^item> the language model \<^verbatim>\<open>self.llm\<close>: a function from the message list it is invoked
    with to the assistant message it replies, or to the exception it raises;
  \<^item> the retriever \<^verbatim>\<open>self.retriever\<close>: a function from the query to the documents
    found, or to the exception it raises;
  \<^item> the step limit of the graph engine whose \<^verbatim>\<open>invoke\<close> runs the compiled graph.

  Two library objects stand between the functions of the program and their callers
  and are written out: the tool object that the decorator \<^verbatim>\<open>@tool\<close> makes of
  \<^verbatim>\<open>retriever_tool\<close>, and the graph engine that runs the nodes.
\<close>

subsection \<open>Exceptions\<close>

text \<open>
  Every exception of the model is a subclass of Python's \<^verbatim>\<open>Exception\<close>:
  \<^verbatim>\<open>xs[-1]\<close> on an empty list, a missing attribute, the arguments of a tool
  failing their check, the graph engine's step limit, and whatever an external
  service (language model, embedding service, vector store) raises, with its message.
\<close>

datatype error =
    IndexError
  | AttributeError
  | ValidationError
  | GraphRecursionError
  | ServiceError string

subsection \<open>Messages\<close>

text \<open>
  A tool-call request of an assistant message is a dictionary with the keys
  \<^verbatim>\<open>name\<close>, \<^verbatim>\<open>args\<close> (itself a dictionary) and \<^verbatim>\<open>id\<close>.
\<close>

record tool_call =
  tc_name :: string
  tc_args :: "(string \<times> string) list"
  tc_id :: string

text \<open>
  The four message classes. Only an assistant message has the attribute
  \<^verbatim>\<open>tool_calls\<close>. The arguments of \<open>ToolMessage\<close> are \<^verbatim>\<open>tool_call_id\<close>,
  \<^verbatim>\<open>name\<close> and \<^verbatim>\<open>content\<close>, in the order of line 106.
\<close>

datatype message =
    SystemMessage string
  | HumanMessage string
  | AIMessage string "tool_call list"
  | ToolMessage string string string

fun content :: "message \<Rightarrow> string" where
  "content (SystemMessage c) = c"
| "content (HumanMessage c) = c"
| "content (AIMessage c calls) = c"
| "content (ToolMessage call_id nm c) = c"

text \<open>\<^verbatim>\<open>hasattr(m, 'tool_calls')\<close> and the attribute access \<^verbatim>\<open>m.tool_calls\<close>.\<close>

fun hasattr_tool_calls :: "message \<Rightarrow> bool" where
  "hasattr_tool_calls (AIMessage c calls) = True"
| "hasattr_tool_calls m = False"

fun get_tool_calls :: "message \<Rightarrow> error + tool_call list" where
  "get_tool_calls (AIMessage c calls) = Inr calls"
| "get_tool_calls m = Inl AttributeError"

text \<open>\<^verbatim>\<open>class AgentState(TypedDict): messages: Sequence[BaseMessage]\<close>\<close>

record AgentState =
  messages :: "message list"

record document =
  page_content :: string

type_synonym llm = "message list \<Rightarrow> error + string \<times> tool_call list"

type_synonym retriever = "string \<Rightarrow> error + document list"

subsection \<open>The retrieval tool\<close>

text \<open>\<^verbatim>\<open>str(n)\<close> for a natural number: its decimal digits.\<close>

definition digit :: "nat \<Rightarrow> char" where
  "digit d = ''0123456789'' ! d"

function str_nat :: "nat \<Rightarrow> string" where
  "str_nat n = (if n < 10 then [digit n] else str_nat (n div 10) @ [digit (n mod 10)])"
  by pat_completeness auto
termination
  by (relation "measure id") auto

declare str_nat.simps [simp del]

text \<open>\<^verbatim>\<open>sep.join(xs)\<close>\<close>

fun join :: "string \<Rightarrow> string list \<Rightarrow> string" where
  "join sep [] = []"
| "join sep [x] = x"
| "join sep (x # y # ys) = x @ sep @ join sep (y # ys)"

definition no_docs_text :: string where
  "no_docs_text = ''No relevant information found in the research paper.''"

text \<open>
  The body of \<^verbatim>\<open>retriever_tool\<close> (lines 64-71), with \<^verbatim>\<open>self.retriever\<close> as
  the first argument. The call of the retriever is not guarded: what it raises leaves
  the function.
\<close>

definition retriever_tool :: "retriever \<Rightarrow> string \<Rightarrow> error + string" where
  "retriever_tool retr query =
     (case retr query of
        Inl e \<Rightarrow> Inl e
      | Inr docs \<Rightarrow>
          if docs = [] then Inr no_docs_text
          else Inr (join ''\<newline>\<newline>''
                 (map (\<lambda>(i, doc). ''Document '' @ str_nat (i + 1) @ '':\<newline>'' @ page_content doc)
                      (List.enumerate 0 docs))))"

text \<open>
  The tool object. The decorator \<^verbatim>\<open>@tool\<close> (line 63) is applied in the class
  body to the plain function \<^verbatim>\<open>retriever_tool(self, query)\<close>, so the arguments
  of the tool it builds are the parameters of that function, \<^verbatim>\<open>self\<close> among
  them. \<^verbatim>\<open>invoke\<close> of a tool object on a single string takes the string as the
  value of the first argument, checks the arguments it then has against the
  parameters, and calls the function only when the check passes. Here the string is
  taken for \<^verbatim>\<open>self\<close> and \<^verbatim>\<open>query\<close> is missing: the check fails before the
  retriever is asked.
\<close>

definition tool_parameters :: "string list" where
  "tool_parameters = [''self'', ''query'']"

definition bind_input :: "string list \<Rightarrow> string \<Rightarrow> (string \<times> string) list" where
  "bind_input params input = (case params of [] \<Rightarrow> [] | p # ps \<Rightarrow> [(p, input)])"

definition tool_invoke :: "retriever \<Rightarrow> string \<Rightarrow> error + string" where
  "tool_invoke retr input =
     (let given = bind_input tool_parameters input in
      case map_of given ''query'' of
        None \<Rightarrow> Inl ValidationError
      | Some query \<Rightarrow> retriever_tool retr query)"

subsection \<open>The functions of setup_agent\<close>

text \<open>
  \<^verbatim>\<open>self.tools_dict = {t.name: t for t in tools}\<close> (lines 74-75) with the one
  tool object, whose name is the name of its function. An entry stands for the
  \<^verbatim>\<open>invoke\<close> of the tool object.
\<close>

type_synonym tool = "string \<Rightarrow> error + string"

definition tools_dict :: "retriever \<Rightarrow> (string \<rightharpoonup> tool)" where
  "tools_dict retr = [''retriever_tool'' \<mapsto> tool_invoke retr]"

text \<open>
  \<^verbatim>\<open>should_continue\<close> (lines 81-83): \<^verbatim>\<open>and\<close> evaluates its right operand only
  when the left one is true.
\<close>

definition should_continue :: "AgentState \<Rightarrow> error + bool" where
  "should_continue state =
     (if messages state = [] then Inl IndexError
      else let last_message = last (messages state) in
        if hasattr_tool_calls last_message then
          (case get_tool_calls last_message of
             Inl e \<Rightarrow> Inl e
           | Inr calls \<Rightarrow> Inr (length calls > 0))
        else Inr False)"

definition system_prompt :: string where
  "system_prompt =
     ''\<newline>'' @
     ''        You are an intelligent AI assistant who answers questions about indivisible fair division and related topics.\<newline>'' @
     ''        Use the retriever tool to look up information from the research paper.\<newline>'' @
     ''        Always cite specific parts of the document in your answers.\<newline>'' @
     ''        ''"

text \<open>
  \<^verbatim>\<open>call_llm\<close> (lines 92-95). \<open>llm_messages\<close> is its local variable
  \<^verbatim>\<open>messages\<close>, the list the model is invoked with.
\<close>

definition llm_messages :: "AgentState \<Rightarrow> message list" where
  "llm_messages state = [SystemMessage system_prompt] @ messages state"

definition call_llm :: "llm \<Rightarrow> AgentState \<Rightarrow> error + AgentState" where
  "call_llm l state =
     (case l (llm_messages state) of
        Inl e \<Rightarrow> Inl e
      | Inr (c, calls) \<Rightarrow> Inr \<lparr>messages = [AIMessage c calls]\<rparr>)"

definition incorrect_tool_text :: string where
  "incorrect_tool_text = ''Incorrect Tool Name, please use the available tool.''"

text \<open>
  \<^verbatim>\<open>take_action\<close> (lines 98-107), with \<^verbatim>\<open>self.tools_dict\<close> as the first
  argument. \<open>tool_loop\<close> is the \<^verbatim>\<open>for\<close> loop over the requests, with the list
  \<^verbatim>\<open>results\<close> built so far; an exception of a tool ends it.
  \<^verbatim>\<open>t['args'].get('query', '')\<close> is the lookup with its default.
\<close>

fun tool_loop :: "(string \<rightharpoonup> tool) \<Rightarrow> tool_call list \<Rightarrow> message list \<Rightarrow> error + message list" where
  "tool_loop tools [] results = Inr results"
| "tool_loop tools (t # ts) results =
     (case (case tools (tc_name t) of
              None \<Rightarrow> Inr incorrect_tool_text
            | Some tool \<Rightarrow>
                tool (case map_of (tc_args t) ''query'' of None \<Rightarrow> '''' | Some q \<Rightarrow> q)) of
        Inl e \<Rightarrow> Inl e
      | Inr result \<Rightarrow>
          tool_loop tools ts (results @ [ToolMessage (tc_id t) (tc_name t) result]))"

definition take_action :: "(string \<rightharpoonup> tool) \<Rightarrow> AgentState \<Rightarrow> error + AgentState" where
  "take_action tools state =
     (if messages state = [] then Inl IndexError
      else case get_tool_calls (last (messages state)) of
             Inl e \<Rightarrow> Inl e
           | Inr calls \<Rightarrow>
               (case tool_loop tools calls [] of
                  Inl e \<Rightarrow> Inl e
                | Inr results \<Rightarrow> Inr \<lparr>messages = results\<rparr>))"

subsection \<open>The graph\<close>

text \<open>
  Lines 110-116: the nodes \<^verbatim>\<open>"llm"\<close> and \<^verbatim>\<open>"retriever_agent"\<close>; after
  \<^verbatim>\<open>"llm"\<close> the value of \<^verbatim>\<open>should_continue\<close> selects
  \<^verbatim>\<open>"retriever_agent"\<close> or \<^verbatim>\<open>END\<close>; after \<^verbatim>\<open>"retriever_agent"\<close> comes
  \<^verbatim>\<open>"llm"\<close>, which is also the entry point. \<^verbatim>\<open>END\<close> is no node: nothing runs
  there and no edge leaves it.
\<close>

datatype node = Llm | Retriever_agent

datatype target = Goto node | END

definition conditional_edge :: "bool \<Rightarrow> target" where
  "conditional_edge b = (if b then Goto Retriever_agent else END)"

text \<open>
  The graph engine (the library's \<^verbatim>\<open>StateGraph\<close>, compiled at line 116) writes
  what a node returns into the state, key by key. How a key is updated is given by
  the reducer annotated to it in the state class; a key with no reducer keeps the
  last value written to it. \<^verbatim>\<open>AgentState\<close> (lines 78-79) declares
  \<^verbatim>\<open>messages\<close> as a plain \<^verbatim>\<open>Sequence[BaseMessage]\<close>, with no reducer, so the
  list a node returns takes the place of the list in the state.
\<close>

definition write_state :: "AgentState \<Rightarrow> AgentState \<Rightarrow> AgentState" where
  "write_state state update = state\<lparr>messages := messages update\<rparr>"

text \<open>
  One step of the graph: run the node, write its result, follow the edge. The acting
  node reads the registry that \<^verbatim>\<open>setup_agent\<close> has built.
\<close>

fun graph_step :: "llm \<Rightarrow> retriever \<Rightarrow> node \<Rightarrow> AgentState \<Rightarrow> error + target \<times> AgentState" where
  "graph_step l retr Llm state =
     (case call_llm l state of
        Inl e \<Rightarrow> Inl e
      | Inr update \<Rightarrow>
          (let state' = write_state state update in
           case should_continue state' of
             Inl e \<Rightarrow> Inl e
           | Inr b \<Rightarrow> Inr (conditional_edge b, state')))"
| "graph_step l retr Retriever_agent state =
     (case take_action (tools_dict retr) state of
        Inl e \<Rightarrow> Inl e
      | Inr update \<Rightarrow> Inr (Goto Llm, write_state state update))"

text \<open>
  The run of the compiled graph from a node. The engine counts the steps of a run and
  raises its recursion error unless the run reaches \<^verbatim>\<open>END\<close> in fewer steps than
  its step limit: a run that would reach \<^verbatim>\<open>END\<close> on the last step the limit
  allows is cut off as well. The program sets no limit and passes no configuration to
  \<^verbatim>\<open>invoke\<close> (line 122), so the limit is the engine's default (25 in the
  library); it is the first argument here. An exception of a node ends the run.
\<close>

fun run_graph :: "nat \<Rightarrow> llm \<Rightarrow> retriever \<Rightarrow> node \<Rightarrow> AgentState \<Rightarrow> error + AgentState" where
  "run_graph 0 l retr nd state = Inl GraphRecursionError"
| "run_graph (Suc n) l retr nd state =
     (case graph_step l retr nd state of
        Inl e \<Rightarrow> Inl e
      | Inr (END, state') \<Rightarrow> if n = 0 then Inl GraphRecursionError else Inr state'
      | Inr (Goto nd', state') \<Rightarrow> run_graph n l retr nd' state')"

definition invoke :: "nat \<Rightarrow> llm \<Rightarrow> retriever \<Rightarrow> AgentState \<Rightarrow> error + AgentState" where
  "invoke limit l retr input = run_graph limit l retr Llm input"

subsection \<open>ask_question\<close>

definition error_text :: string where
  "error_text = ''I'm sorry, I encountered an error while processing your question. Please try again.''"

text \<open>
  \<^verbatim>\<open>ask_question\<close> (lines 118-126): \<open>ask_try\<close> is the body of the
  \<^verbatim>\<open>try\<close>, and \<^verbatim>\<open>except Exception\<close> turns every exception of it into the
  fixed text.
\<close>

definition ask_try :: "nat \<Rightarrow> llm \<Rightarrow> retriever \<Rightarrow> string \<Rightarrow> error + string" where
  "ask_try limit l retr question =
     (case invoke limit l retr \<lparr>messages = [HumanMessage question]\<rparr> of
        Inl e \<Rightarrow> Inl e
      | Inr result \<Rightarrow>
          if messages result = [] then Inl IndexError
          else Inr (content (last (messages result))))"

definition ask_question :: "nat \<Rightarrow> llm \<Rightarrow> retriever \<Rightarrow> string \<Rightarrow> error + string" where
  "ask_question limit l retr question =
     (case ask_try limit l retr question of
        Inl e \<Rightarrow> Inr error_text
      | Inr answer \<Rightarrow> Inr answer)"

subsection \<open>Sample data\<close>

text \<open>
  Concrete services and requests, used where a property is evaluated on an example:
  a model that asks for an unregistered tool on every call, one that asks for the
  registered tool on every call, one that answers at once when it is given exactly
  the system message and the question, one that asks for an unregistered tool once
  and answers when it sees a tool result, one that fails, and retrievers that find
  two documents or nothing.
\<close>

abbreviation sample_question :: string where
  "sample_question \<equiv> ''What does Algorithm X achieve?''"

abbreviation sample_answer :: string where
  "sample_answer \<equiv> ''Algorithm X achieves envy-freeness.''"

abbreviation sample_call :: tool_call where
  "sample_call \<equiv>
     \<lparr>tc_name = ''retriever_tool'', tc_args = [(''query'', ''Algorithm X'')], tc_id = ''call_1''\<rparr>"

abbreviation unknown_call :: tool_call where
  "unknown_call \<equiv> \<lparr>tc_name = ''web_search'', tc_args = [], tc_id = ''call_2''\<rparr>"

abbreviation unknown_result :: message where
  "unknown_result \<equiv>
     ToolMessage ''call_2'' ''web_search'' ''Incorrect Tool Name, please use the available tool.''"

abbreviation unknown_tool_llm :: llm where
  "unknown_tool_llm \<equiv> (\<lambda>ms. Inr (''Searching.'', [unknown_call]))"


abbreviation exact_llm :: llm where
  "exact_llm \<equiv>
     (\<lambda>ms. if ms = [SystemMessage system_prompt, HumanMessage sample_question]
           then Inr (sample_answer, [])
           else Inl (ServiceError ''unexpected messages''))"

abbreviation two_turn_llm :: llm where
  "two_turn_llm \<equiv>
     (\<lambda>ms. case last ms of
              ToolMessage call_id nm c \<Rightarrow> Inr (sample_answer, [])
            | _ \<Rightarrow> Inr (''Searching.'', [unknown_call]))"

abbreviation failing_llm :: llm where
  "failing_llm \<equiv> (\<lambda>ms. Inl (ServiceError ''timeout''))"

abbreviation two_doc_retriever :: retriever where
  "two_doc_retriever \<equiv>
     (\<lambda>q. Inr [\<lparr>page_content = ''Algorithm X achieves envy-freeness''\<rparr>,
               \<lparr>page_content = ''Algorithm Y achieves EF1''\<rparr>])"

abbreviation empty_retriever :: retriever where
  "empty_retriever \<equiv> (\<lambda>q. Inr [])"

section \<open>Auxiliary facts\<close>

subsection \<open>The tool object\<close>

lemma tool_invoke_raises: "tool_invoke retr input = Inl ValidationError"
  by (simp add: tool_invoke_def tool_parameters_def bind_input_def)

lemma tools_dict_dom: "dom (tools_dict retr) = {''retriever_tool''}"
  by (simp add: tools_dict_def)

lemma tools_dict_registered:
  "tools_dict retr nm = Some tool \<Longrightarrow> nm = ''retriever_tool'' \<and> tool = tool_invoke retr"
  by (auto simp: tools_dict_def split: if_splits)

subsection \<open>The loop of take_action\<close>

lemma tool_loop_results:
  "tool_loop tools calls acc = Inr res \<Longrightarrow>
   \<exists>new. res = acc @ new \<and>
     list_all2 (\<lambda>t m. \<exists>out. m = ToolMessage (tc_id t) (tc_name t) out \<and>
        (case tools (tc_name t) of
           None \<Rightarrow> out = incorrect_tool_text
         | Some tool \<Rightarrow> tool (case map_of (tc_args t) ''query'' of None \<Rightarrow> '''' | Some q \<Rightarrow> q) = Inr out))
       calls new"
proof (induction calls arbitrary: acc res)
  case Nil
  then show ?case by simp
next
  case (Cons t ts)
  show ?case
  proof (cases "tools (tc_name t)")
    case None
    with Cons.prems have "tool_loop tools ts (acc @ [ToolMessage (tc_id t) (tc_name t) incorrect_tool_text]) = Inr res"
      by simp
    from Cons.IH [OF this] obtain new where
      "res = (acc @ [ToolMessage (tc_id t) (tc_name t) incorrect_tool_text]) @ new"
      "list_all2 (\<lambda>t m. \<exists>out. m = ToolMessage (tc_id t) (tc_name t) out \<and>
        (case tools (tc_name t) of
           None \<Rightarrow> out = incorrect_tool_text
         | Some tool \<Rightarrow> tool (case map_of (tc_args t) ''query'' of None \<Rightarrow> '''' | Some q \<Rightarrow> q) = Inr out))
       ts new" by blast
    with None show ?thesis
      by (intro exI [of _ "ToolMessage (tc_id t) (tc_name t) incorrect_tool_text # new"]) simp
  next
    case (Some tool)
    show ?thesis
    proof (cases "tool (case map_of (tc_args t) ''query'' of None \<Rightarrow> [] | Some q \<Rightarrow> q)")
      case (Inl e)
      with Some Cons.prems show ?thesis by simp
    next
      case (Inr out)
      with Some Cons.prems have "tool_loop tools ts (acc @ [ToolMessage (tc_id t) (tc_name t) out]) = Inr res"
        by simp
      from Cons.IH [OF this] obtain new where
        "res = (acc @ [ToolMessage (tc_id t) (tc_name t) out]) @ new"
        "list_all2 (\<lambda>t m. \<exists>out. m = ToolMessage (tc_id t) (tc_name t) out \<and>
          (case tools (tc_name t) of
             None \<Rightarrow> out = incorrect_tool_text
           | Some tool \<Rightarrow> tool (case map_of (tc_args t) ''query'' of None \<Rightarrow> '''' | Some q \<Rightarrow> q) = Inr out))
         ts new" by blast
      with Some Inr show ?thesis
        by (intro exI [of _ "ToolMessage (tc_id t) (tc_name t) out # new"]) simp
    qed
  qed
qed

lemma tool_loop_unknown:
  "\<forall>t \<in> set calls. tools (tc_name t) = None \<Longrightarrow>
   tool_loop tools calls acc =
     Inr (acc @ map (\<lambda>t. ToolMessage (tc_id t) (tc_name t) incorrect_tool_text) calls)"
  by (induction calls arbitrary: acc) auto

text \<open>
  The loop raises at the first request whose tool raises: the requests before it have
  all been answered, and the exception is that of the tool on the request's
  \<^verbatim>\<open>query\<close> argument, or on the empty string.
\<close>

lemma tool_loop_error:
  "tool_loop tools calls acc = Inl e \<Longrightarrow>
   \<exists>i < length calls. \<exists>tool. tools (tc_name (calls ! i)) = Some tool \<and>
      tool (case map_of (tc_args (calls ! i)) ''query'' of None \<Rightarrow> '''' | Some q \<Rightarrow> q) = Inl e \<and>
      (\<exists>res. tool_loop tools (take i calls) acc = Inr res)"
proof (induction calls arbitrary: acc)
  case Nil
  then show ?case by simp
next
  case (Cons t ts)
  show ?case
  proof (cases "tools (tc_name t)")
    case None
    with Cons.prems have "tool_loop tools ts (acc @ [ToolMessage (tc_id t) (tc_name t) incorrect_tool_text]) = Inl e"
      by simp
    from Cons.IH [OF this] obtain i tool where i: "i < length ts"
      "tools (tc_name (ts ! i)) = Some tool"
      "tool (case map_of (tc_args (ts ! i)) ''query'' of None \<Rightarrow> '''' | Some q \<Rightarrow> q) = Inl e"
      "\<exists>res. tool_loop tools (take i ts)
          (acc @ [ToolMessage (tc_id t) (tc_name t) incorrect_tool_text]) = Inr res"
      by blast
    with None show ?thesis
      by (intro exI [of _ "Suc i"]) auto
  next
    case (Some tool)
    show ?thesis
    proof (cases "tool (case map_of (tc_args t) ''query'' of None \<Rightarrow> [] | Some q \<Rightarrow> q)")
      case (Inl e')
      with Some Cons.prems have "e' = e" by simp
      with Some Inl show ?thesis
        by (intro exI [of _ 0]) auto
    next
      case (Inr out)
      with Some Cons.prems have "tool_loop tools ts (acc @ [ToolMessage (tc_id t) (tc_name t) out]) = Inl e"
        by simp
      from Cons.IH [OF this] obtain i tool' where i: "i < length ts"
        "tools (tc_name (ts ! i)) = Some tool'"
        "tool' (case map_of (tc_args (ts ! i)) ''query'' of None \<Rightarrow> '''' | Some q \<Rightarrow> q) = Inl e"
        "\<exists>res. tool_loop tools (take i ts)
            (acc @ [ToolMessage (tc_id t) (tc_name t) out]) = Inr res"
        by blast
      with Some Inr show ?thesis
        by (intro exI [of _ "Suc i"]) auto
    qed
  qed
qed

lemma tool_loop_tool_messages:
  assumes "tool_loop tools calls [] = Inr res"
  shows "\<forall>m \<in> set res. \<exists>call_id nm c. m = ToolMessage call_id nm c"
proof -
  from tool_loop_results [OF assms] have
    "list_all2 (\<lambda>t m. \<exists>out. m = ToolMessage (tc_id t) (tc_name t) out \<and>
        (case tools (tc_name t) of
           None \<Rightarrow> out = incorrect_tool_text
         | Some tool \<Rightarrow> tool (case map_of (tc_args t) ''query'' of None \<Rightarrow> '''' | Some q \<Rightarrow> q) = Inr out))
       calls res" by simp
  then have "list_all2 (\<lambda>t m. \<exists>call_id nm c. m = ToolMessage call_id nm c) calls res"
    by (rule list_all2_mono) blast
  then show ?thesis
    by (auto simp: list_all2_conv_all_nth in_set_conv_nth)
qed

lemma take_action_ai:
  assumes "messages state \<noteq> []" and "last (messages state) = AIMessage c calls"
  shows "take_action tools state =
           (case tool_loop tools calls [] of Inl e \<Rightarrow> Inl e | Inr results \<Rightarrow> Inr \<lparr>messages = results\<rparr>)"
  using assms by (simp add: take_action_def)

subsection \<open>The steps and the run of the graph\<close>

lemma graph_step_llm:
  assumes "graph_step l retr Llm state = Inr (tgt, state')"
  shows "\<exists>c calls. l (llm_messages state) = Inr (c, calls) \<and>
           messages state' = [AIMessage c calls] \<and>
           tgt = conditional_edge (calls \<noteq> [])"
  using assms
  by (auto simp: call_llm_def write_state_def should_continue_def Let_def
           split: sum.splits prod.splits)

lemma graph_step_retriever:
  assumes "graph_step l retr Retriever_agent state = Inr (tgt, state')"
  shows "tgt = Goto Llm"
  using assms by (auto split: sum.splits)

text \<open>
  The rule of the edge after a reasoning step: the reply of the model is the last
  message of the state the rule is evaluated on, and the graph goes to the acting
  node exactly when the reply carries tool calls, and to \<^verbatim>\<open>END\<close> otherwise.
\<close>

lemma reasoning_step_edge:
  "(\<forall>c calls. l (llm_messages state) = Inr (c, calls) \<longrightarrow>
      (\<exists>state'. graph_step l retr Llm state
                   = Inr (if calls \<noteq> [] then Goto Retriever_agent else END, state') \<and>
         messages state' \<noteq> [] \<and>
         last (messages state') = AIMessage c calls)) \<and>
   (\<forall>e. l (llm_messages state) = Inl e \<longrightarrow> graph_step l retr Llm state = Inl e)"
  by (auto simp: call_llm_def write_state_def should_continue_def conditional_edge_def)

text \<open>
  What the acting step leaves in the state: the tool results and nothing else, so the
  next reasoning step is invoked with the system message followed by tool results.
\<close>

lemma acting_step_leaves_tool_results:
  assumes "graph_step l retr Retriever_agent state = Inr (tgt, state')"
  shows "tgt = Goto Llm \<and>
         (\<forall>m \<in> set (messages state'). \<exists>call_id nm c. m = ToolMessage call_id nm c) \<and>
         llm_messages state' = SystemMessage system_prompt # messages state'"
proof -
  from assms obtain update where u: "take_action (tools_dict retr) state = Inr update"
    "tgt = Goto Llm" "messages state' = messages update"
    by (auto simp: write_state_def split: sum.splits)
  from u(1) obtain calls res where
    "tool_loop (tools_dict retr) calls [] = Inr res" "messages update = res"
    by (auto simp: take_action_def split: if_splits sum.splits)
  with tool_loop_tool_messages [of "tools_dict retr" calls res] u show ?thesis
    by (simp add: llm_messages_def)
qed

lemma run_graph_final:
  "run_graph n l retr nd state = Inr final \<Longrightarrow>
   \<exists>previous c. graph_step l retr Llm previous = Inr (END, final) \<and>
      messages final = [AIMessage c []]"
proof (induction n arbitrary: nd state)
  case 0
  then show ?case by simp
next
  case (Suc n)
  show ?case
  proof (cases "graph_step l retr nd state")
    case (Inl e)
    with Suc.prems show ?thesis by simp
  next
    case (Inr p)
    obtain tgt state' where p: "p = (tgt, state')" by (cases p)
    show ?thesis
    proof (cases tgt)
      case (Goto nd')
      with Inr p Suc.prems have "run_graph n l retr nd' state' = Inr final" by simp
      then show ?thesis by (rule Suc.IH)
    next
      case END
      with Inr p Suc.prems have fin: "state' = final" by (simp split: if_splits)
      have nd: "nd = Llm"
      proof (cases nd)
        case Llm then show ?thesis .
      next
        case Retriever_agent
        with Inr p END graph_step_retriever [of l retr state tgt state'] show ?thesis by simp
      qed
      with Inr p END fin have step: "graph_step l retr Llm state = Inr (END, final)" by simp
      from graph_step_llm [OF step] obtain c calls where
        "messages final = [AIMessage c calls]" "END = conditional_edge (calls \<noteq> [])" by blast
      then have "messages final = [AIMessage c []]"
        by (cases "calls = []") (simp_all add: conditional_edge_def)
      with step show ?thesis by blast
    qed
  qed
qed



subsection \<open>The body of the retrieval tool\<close>

text \<open>\<open>str_nat\<close> writes the number in base ten: reading the digits back gives the number.\<close>

lemma digit_value: "d < 10 \<Longrightarrow> of_char (digit d) = (48 + d :: nat)"
proof -
  assume "d < 10"
  then have "d \<in> {0, 1, 2, 3, 4, 5, 6, 7, 8, 9}" by auto
  then show ?thesis by (auto simp: digit_def)
qed

lemma str_nat_value:
  "foldl (\<lambda>a ch. 10 * a + (of_char ch - 48)) 0 (str_nat n) = n"
proof (induction n rule: str_nat.induct)
  case (1 n)
  show ?case
  proof (cases "n < 10")
    case True
    then show ?thesis by (subst str_nat.simps) (simp add: digit_value)
  next
    case False
    have "n mod 10 < 10" by simp
    with False 1 show ?thesis
      by (subst str_nat.simps) (simp add: digit_value)
  qed
qed

lemma str_nat_inj: "str_nat m = str_nat n \<Longrightarrow> m = n"
  by (metis str_nat_value)

lemma str_nat_1: "str_nat (Suc 0) = ''1''"
  by (simp add: str_nat.simps digit_def)

lemma str_nat_2: "str_nat (Suc (Suc 0)) = ''2''"
  by (simp add: str_nat.simps digit_def)

lemma enumerate_labels:
  "map (\<lambda>(i, doc). f i doc) (List.enumerate 0 docs) = map (\<lambda>i. f i (docs ! i)) [0..<length docs]"
  by (rule nth_equalityI) (simp_all add: nth_enumerate_eq)

text \<open>
  What the body of \<^verbatim>\<open>retriever_tool\<close> computes when it is called with a query:
  the fixed text for an empty list of documents, otherwise the blocks
  \<^verbatim>\<open>Document 1:\<close>, \<^verbatim>\<open>Document 2:\<close>, ... in the order of the list, joined by
  blank lines; an exception of the retriever leaves it unchanged.
\<close>

lemma retriever_tool_body:
  "(\<forall>docs. retr query = Inr docs \<longrightarrow>
      (docs = [] \<longrightarrow> retriever_tool retr query = Inr no_docs_text) \<and>
      (docs \<noteq> [] \<longrightarrow>
         retriever_tool retr query =
           Inr (join ''\<newline>\<newline>''
                 (map (\<lambda>i. ''Document '' @ str_nat (i + 1) @ '':\<newline>'' @ page_content (docs ! i))
                      [0..<length docs])))) \<and>
   (\<forall>e. retr query = Inl e \<longrightarrow> retriever_tool retr query = Inl e)"
  by (simp add: retriever_tool_def enumerate_labels)

section \<open>Properties\<close>

subsection \<open>ask_question returns text\<close>

text \<open>
  C1: for every question, \<^verbatim>\<open>ask_question\<close> returns a text and raises nothing.
  Whenever the body of its \<^verbatim>\<open>try\<close> fails, the text is the fixed fallback: when
  the run of the graph raises, when the result of the run has an empty message list,
  and in particular when the language model raises on its first call.
\<close>

theorem ask_question_returns_text:
  "(\<exists>answer. ask_question limit l retr question = Inr answer) \<and>
   (\<forall>e. ask_try limit l retr question = Inl e \<longrightarrow>
        ask_question limit l retr question = Inr error_text) \<and>
   (\<forall>e. invoke limit l retr \<lparr>messages = [HumanMessage question]\<rparr> = Inl e \<longrightarrow>
        ask_question limit l retr question = Inr error_text) \<and>
   (\<forall>result. invoke limit l retr \<lparr>messages = [HumanMessage question]\<rparr> = Inr result \<longrightarrow>
        messages result = [] \<longrightarrow> ask_question limit l retr question = Inr error_text) \<and>
   (\<forall>e. l [SystemMessage system_prompt, HumanMessage question] = Inl e \<longrightarrow>
        ask_question limit l retr question = Inr error_text)"
proof (intro conjI allI impI)
  show "\<exists>answer. ask_question limit l retr question = Inr answer"
    by (cases "ask_try limit l retr question") (simp_all add: ask_question_def)
next
  fix e assume "ask_try limit l retr question = Inl e"
  then show "ask_question limit l retr question = Inr error_text"
    by (simp add: ask_question_def)
next
  fix e assume "invoke limit l retr \<lparr>messages = [HumanMessage question]\<rparr> = Inl e"
  then show "ask_question limit l retr question = Inr error_text"
    by (simp add: ask_question_def ask_try_def)
next
  fix result
  assume "invoke limit l retr \<lparr>messages = [HumanMessage question]\<rparr> = Inr result"
    and "messages result = []"
  then show "ask_question limit l retr question = Inr error_text"
    by (simp add: ask_question_def ask_try_def)
next
  fix e assume e: "l [SystemMessage system_prompt, HumanMessage question] = Inl e"
  have "\<exists>e'. invoke limit l retr \<lparr>messages = [HumanMessage question]\<rparr> = Inl e'"
  proof (cases limit)
    case 0
    then show ?thesis by (simp add: invoke_def)
  next
    case (Suc n)
    with e show ?thesis by (simp add: invoke_def call_llm_def llm_messages_def)
  qed
  then show "ask_question limit l retr question = Inr error_text"
    by (auto simp: ask_question_def ask_try_def)
qed

text \<open>A language model that times out: the caller gets the fallback text.\<close>

theorem ask_question_returns_text_witness:
  "ask_try 25 failing_llm empty_retriever ''What does Algorithm X achieve?''
     = Inl (ServiceError ''timeout'')
   \<and> ask_question 25 failing_llm empty_retriever ''What does Algorithm X achieve?''
     = Inr ''I'm sorry, I encountered an error while processing your question. Please try again.''"
proof -
  have h: "ask_try 25 failing_llm empty_retriever ''What does Algorithm X achieve?''
     = Inl (ServiceError ''timeout'')"
    by (simp add: ask_try_def invoke_def call_llm_def numeral_eq_Suc)
  from ask_question_returns_text
      [of 25 failing_llm empty_retriever "''What does Algorithm X achieve?''"] h
  have "ask_question 25 failing_llm empty_retriever ''What does Algorithm X achieve?''
     = Inr error_text" by blast
  with h show ?thesis by (simp add: error_text_def)
qed

subsection \<open>The state after a reasoning step\<close>

text \<open>
  C2, the code on a question: the reply of the reasoning step is not appended to the
  conversation state, it takes its place. When the model answers the question, the
  state on which the transition is evaluated holds the answer alone, which is not
  the question followed by the answer; when the model asks for a tool, the state
  that goes to the acting node holds the request alone. The edge itself is as
  claimed (\<open>reasoning_step_edge\<close>): \<^verbatim>\<open>END\<close> for the answer, the acting node
  for the request.
\<close>

theorem reasoning_step_replaces_state:
  "graph_step exact_llm empty_retriever Llm \<lparr>messages = [HumanMessage sample_question]\<rparr>
     = Inr (END, \<lparr>messages = [AIMessage sample_answer []]\<rparr>)
   \<and> [AIMessage sample_answer []]
     \<noteq> [HumanMessage sample_question] @ [AIMessage sample_answer []]
   \<and> graph_step unknown_tool_llm empty_retriever Llm \<lparr>messages = [HumanMessage sample_question]\<rparr>
     = Inr (Goto Retriever_agent, \<lparr>messages = [AIMessage ''Searching.'' [unknown_call]]\<rparr>)
   \<and> [AIMessage ''Searching.'' [unknown_call]]
     \<noteq> [HumanMessage sample_question] @ [AIMessage ''Searching.'' [unknown_call]]"
  by (simp add: call_llm_def llm_messages_def write_state_def should_continue_def
        conditional_edge_def)

subsection \<open>A language model that always asks for a tool\<close>



subsection \<open>The acting step\<close>

text \<open>
  C4: \<^verbatim>\<open>take_action\<close> on a state whose last message is an assistant message
  handles the requests of that message in their order, whatever the registry
  \<^verbatim>\<open>self.tools_dict\<close> holds. A request whose tool name is not a key of the
  registry gets the fixed text
  \<^verbatim>\<open>Incorrect Tool Name, please use the available tool.\<close> and raises nothing:
  when no name is registered the step returns exactly these results. For a request
  with a registered name the registered tool is invoked on the \<^verbatim>\<open>query\<close>
  argument of the request, or on the empty string when the request has no such
  argument: what the tool returns is the text of the result, and the step raises
  only what such an invocation raises, at the first request where one does, the
  requests before it having been answered.
\<close>

theorem take_action_dispatch:
  assumes "messages state \<noteq> []" and "last (messages state) = AIMessage c calls"
  shows "((\<forall>t \<in> set calls. tc_name t \<notin> dom tools) \<longrightarrow>
            take_action tools state =
              Inr \<lparr>messages = map (\<lambda>t. ToolMessage (tc_id t) (tc_name t) incorrect_tool_text) calls\<rparr>) \<and>
         (\<forall>update i. take_action tools state = Inr update \<longrightarrow> i < length calls \<longrightarrow>
            (tc_name (calls ! i) \<notin> dom tools \<longrightarrow>
               content (messages update ! i) = incorrect_tool_text) \<and>
            (\<forall>tool. tools (tc_name (calls ! i)) = Some tool \<longrightarrow>
               tool (case map_of (tc_args (calls ! i)) ''query'' of None \<Rightarrow> '''' | Some q \<Rightarrow> q)
               = Inr (content (messages update ! i)))) \<and>
         (\<forall>e. take_action tools state = Inl e \<longrightarrow>
            (\<exists>i < length calls. \<exists>tool. tools (tc_name (calls ! i)) = Some tool \<and>
               tool (case map_of (tc_args (calls ! i)) ''query'' of None \<Rightarrow> '''' | Some q \<Rightarrow> q)
               = Inl e \<and>
               (\<exists>res. tool_loop tools (take i calls) [] = Inr res)))"
proof (intro conjI allI impI)
  assume "\<forall>t \<in> set calls. tc_name t \<notin> dom tools"
  then have "\<forall>t \<in> set calls. tools (tc_name t) = None" by blast
  from tool_loop_unknown [OF this, of "[]"] show
    "take_action tools state =
       Inr \<lparr>messages = map (\<lambda>t. ToolMessage (tc_id t) (tc_name t) incorrect_tool_text) calls\<rparr>"
    by (simp add: take_action_ai [OF assms])
next
  fix update i
  assume ok: "take_action tools state = Inr update" and i: "i < length calls"
  from ok obtain res where res: "tool_loop tools calls [] = Inr res" "messages update = res"
    by (auto simp: take_action_ai [OF assms] split: sum.splits)
  from tool_loop_results [OF res(1)] have all2:
    "list_all2 (\<lambda>t m. \<exists>out. m = ToolMessage (tc_id t) (tc_name t) out \<and>
        (case tools (tc_name t) of
           None \<Rightarrow> out = incorrect_tool_text
         | Some tool \<Rightarrow> tool (case map_of (tc_args t) ''query'' of None \<Rightarrow> '''' | Some q \<Rightarrow> q) = Inr out))
       calls res" by simp
  from list_all2_nthD [OF all2 i] obtain out where out:
    "res ! i = ToolMessage (tc_id (calls ! i)) (tc_name (calls ! i)) out"
    "case tools (tc_name (calls ! i)) of
           None \<Rightarrow> out = incorrect_tool_text
         | Some tool \<Rightarrow> tool (case map_of (tc_args (calls ! i)) ''query'' of None \<Rightarrow> '''' | Some q \<Rightarrow> q) = Inr out"
    by blast
  { assume "tc_name (calls ! i) \<notin> dom tools"
    then have "tools (tc_name (calls ! i)) = None" by blast
    with out res(2) show "content (messages update ! i) = incorrect_tool_text" by simp }
  { fix tool
    assume "tools (tc_name (calls ! i)) = Some tool"
    with out res(2) show "tool
                 (case map_of (tc_args (calls ! i)) ''query'' of None \<Rightarrow> '''' | Some q \<Rightarrow> q)
               = Inr (content (messages update ! i))" by simp }
next
  fix e
  assume "take_action tools state = Inl e"
  then have "tool_loop tools calls [] = Inl e"
    by (auto simp: take_action_ai [OF assms] split: sum.splits)
  from tool_loop_error [OF this]
  show "\<exists>i < length calls. \<exists>tool. tools (tc_name (calls ! i)) = Some tool \<and>
               tool (case map_of (tc_args (calls ! i)) ''query'' of None \<Rightarrow> '''' | Some q \<Rightarrow> q)
               = Inl e \<and>
               (\<exists>res. tool_loop tools (take i calls) [] = Inr res)" .
qed

text \<open>
  The registry of the program, on a request for an unregistered tool, and on that
  request followed by one for the registered tool: the first is answered with the
  fixed text, the second raises what the invocation of the tool object raises.
\<close>

theorem take_action_dispatch_witness:
  "take_action (tools_dict two_doc_retriever) \<lparr>messages = [AIMessage ''Searching.'' [unknown_call]]\<rparr>
     = Inr \<lparr>messages = [unknown_result]\<rparr>
   \<and> take_action (tools_dict two_doc_retriever)
       \<lparr>messages = [AIMessage ''Searching.'' [unknown_call, sample_call]]\<rparr>
     = Inl ValidationError
   \<and> tool_invoke two_doc_retriever ''Algorithm X'' = Inl ValidationError"
proof -
  have h1: "messages \<lparr>messages = [AIMessage ''Searching.'' [unknown_call]]\<rparr> \<noteq> []" by simp
  have h2: "last (messages \<lparr>messages = [AIMessage ''Searching.'' [unknown_call]]\<rparr>)
              = AIMessage ''Searching.'' [unknown_call]" by simp
  have u: "\<forall>t \<in> set [unknown_call]. tc_name t \<notin> dom (tools_dict two_doc_retriever)"
    by (simp add: tools_dict_def)
  from take_action_dispatch [OF h1 h2, of "tools_dict two_doc_retriever", THEN conjunct1] u
  have a: "take_action (tools_dict two_doc_retriever)
             \<lparr>messages = [AIMessage ''Searching.'' [unknown_call]]\<rparr>
           = Inr \<lparr>messages = [unknown_result]\<rparr>"
    by (simp add: incorrect_tool_text_def)
  have g1: "messages \<lparr>messages = [AIMessage ''Searching.'' [unknown_call, sample_call]]\<rparr> \<noteq> []"
    by simp
  have g2: "last (messages \<lparr>messages = [AIMessage ''Searching.'' [unknown_call, sample_call]]\<rparr>)
              = AIMessage ''Searching.'' [unknown_call, sample_call]" by simp
  have b: "take_action (tools_dict two_doc_retriever)
             \<lparr>messages = [AIMessage ''Searching.'' [unknown_call, sample_call]]\<rparr>
           = Inl ValidationError"
    by (simp add: take_action_def tools_dict_def tool_invoke_raises)
  from take_action_dispatch [OF g1 g2, of "tools_dict two_doc_retriever", THEN conjunct2,
      THEN conjunct2, rule_format, OF b]
  obtain i tool where "i < length [unknown_call, sample_call]"
    "tools_dict two_doc_retriever (tc_name ([unknown_call, sample_call] ! i)) = Some tool"
    "tool (case map_of (tc_args ([unknown_call, sample_call] ! i)) ''query'' of
             None \<Rightarrow> '''' | Some q \<Rightarrow> q) = Inl ValidationError"
    by blast
  then have "i = 1" and "tool = tool_invoke two_doc_retriever"
    by (auto simp: tools_dict_def less_Suc_eq split: if_splits)
  with \<open>tool (case map_of (tc_args ([unknown_call, sample_call] ! i)) ''query'' of
             None \<Rightarrow> '''' | Some q \<Rightarrow> q) = Inl ValidationError\<close>
  have c: "tool_invoke two_doc_retriever ''Algorithm X'' = Inl ValidationError" by simp
  from a b c show ?thesis by simp
qed

subsection \<open>The state after an acting step\<close>

text \<open>
  C5, the code on a request: \<^verbatim>\<open>take_action\<close> returns one tool-result message
  for the request, with its call id and tool name, but the results are not appended
  to the conversation state, they take its place. After the acting step on the
  state that holds the assistant message with the request, the state holds the tool
  result alone, which is not the assistant message followed by the result: the
  message whose request the result answers is gone, and the next reasoning step is
  invoked with the system message and the tool result only.
\<close>

theorem acting_step_replaces_state:
  "graph_step unknown_tool_llm empty_retriever Retriever_agent
       \<lparr>messages = [AIMessage ''Searching.'' [unknown_call]]\<rparr>
     = Inr (Goto Llm, \<lparr>messages = [unknown_result]\<rparr>)
   \<and> [unknown_result] \<noteq> [AIMessage ''Searching.'' [unknown_call]] @ [unknown_result]
   \<and> llm_messages \<lparr>messages = [unknown_result]\<rparr> = [SystemMessage system_prompt, unknown_result]"
  by (simp add: take_action_def tools_dict_def write_state_def incorrect_tool_text_def
        llm_messages_def)

subsection \<open>The retrieval tool\<close>

text \<open>
  C6, the code on a query: the retrieval tool of the program is the tool object
  registered under \<^verbatim>\<open>retriever_tool\<close>. Invoked on a query, as
  \<^verbatim>\<open>take_action\<close> does, it raises and returns no text, whether the retriever
  finds documents or none. The body of the function, which would return the two
  labelled documents for the same query, is not reached.
\<close>

theorem retrieval_tool_invoke_raises:
  "tools_dict two_doc_retriever ''retriever_tool'' = Some (tool_invoke two_doc_retriever)
   \<and> tool_invoke two_doc_retriever ''Algorithm X'' = Inl ValidationError
   \<and> tool_invoke empty_retriever ''Algorithm X'' = Inl ValidationError
   \<and> retriever_tool two_doc_retriever ''Algorithm X''
     = Inr (''Document 1:\<newline>Algorithm X achieves envy-freeness'' @
            ''\<newline>\<newline>'' @
            ''Document 2:\<newline>Algorithm Y achieves EF1'')
   \<and> retriever_tool empty_retriever ''Algorithm X''
     = Inr ''No relevant information found in the research paper.''"
proof -
  have upt2: "[0..<2] = [0, Suc 0]" by (simp add: upt_rec)
  have two: "two_doc_retriever ''Algorithm X''
     = Inr [\<lparr>page_content = ''Algorithm X achieves envy-freeness''\<rparr>,
            \<lparr>page_content = ''Algorithm Y achieves EF1''\<rparr>]" by simp
  have none: "empty_retriever ''Algorithm X'' = Inr []" by simp
  from retriever_tool_body [of two_doc_retriever "''Algorithm X''", THEN conjunct1, rule_format,
      OF two, THEN conjunct2]
  have a: "retriever_tool two_doc_retriever ''Algorithm X''
     = Inr (''Document 1:\<newline>Algorithm X achieves envy-freeness'' @
            ''\<newline>\<newline>'' @
            ''Document 2:\<newline>Algorithm Y achieves EF1'')"
    by (simp add: upt2 str_nat_1 str_nat_2)
  from retriever_tool_body [of empty_retriever "''Algorithm X''", THEN conjunct1, rule_format,
      OF none, THEN conjunct1]
  have b: "retriever_tool empty_retriever ''Algorithm X''
     = Inr ''No relevant information found in the research paper.''"
    by (simp add: no_docs_text_def)
  from a b show ?thesis by (simp add: tools_dict_def tool_invoke_raises)
qed

subsection \<open>The first reasoning step\<close>



subsection \<open>The answer\<close>

text \<open>
  C8: when the run of the graph ends in \<^verbatim>\<open>END\<close> with a final state,
  \<^verbatim>\<open>ask_question\<close> returns the content of the last message of that state, and
  that message is an assistant message without tool calls: the reply of the
  reasoning step that took the transition to \<^verbatim>\<open>END\<close>.
\<close>

theorem answer_is_last_message:
  assumes "invoke limit l retr \<lparr>messages = [HumanMessage question]\<rparr> = Inr final"
  shows "messages final \<noteq> [] \<and>
         ask_question limit l retr question = Inr (content (last (messages final))) \<and>
         (\<exists>c. last (messages final) = AIMessage c []) \<and>
         (\<exists>previous. graph_step l retr Llm previous = Inr (END, final))"
proof -
  from assms have "run_graph limit l retr Llm \<lparr>messages = [HumanMessage question]\<rparr> = Inr final"
    by (simp add: invoke_def)
  from run_graph_final [OF this] obtain previous c where
    "graph_step l retr Llm previous = Inr (END, final)" "messages final = [AIMessage c []]"
    by blast
  with assms show ?thesis
    by (auto simp: ask_question_def ask_try_def)
qed

text \<open>
  A run of two reasoning steps with one acting step between them: the model asks for
  an unregistered tool, is told so, and answers.
\<close>

theorem answer_is_last_message_witness:
  "invoke 25 two_turn_llm empty_retriever \<lparr>messages = [HumanMessage sample_question]\<rparr>
     = Inr \<lparr>messages = [AIMessage sample_answer []]\<rparr>
   \<and> ask_question 25 two_turn_llm empty_retriever sample_question = Inr sample_answer"
proof -
  have h: "invoke 25 two_turn_llm empty_retriever \<lparr>messages = [HumanMessage sample_question]\<rparr>
     = Inr \<lparr>messages = [AIMessage sample_answer []]\<rparr>"
    by (simp add: invoke_def numeral_eq_Suc call_llm_def llm_messages_def write_state_def
          should_continue_def conditional_edge_def take_action_def tools_dict_def)
  show ?thesis
    using h answer_is_last_message [OF h]
    by simp
qed

subsection \<open>The continuation test\<close>

text \<open>
  C10: \<^verbatim>\<open>should_continue\<close> raises nothing on a state that has a last message,
  whatever the class of that message, and it is false when the last message has no
  attribute \<^verbatim>\<open>tool_calls\<close> (a system, user or tool-result message) or has an
  empty list of tool calls.
\<close>

theorem should_continue_total:
  assumes "messages state \<noteq> []"
  shows "(\<exists>b. should_continue state = Inr b) \<and>
         ((\<not> hasattr_tool_calls (last (messages state))
           \<or> get_tool_calls (last (messages state)) = Inr [])
          \<longrightarrow> should_continue state = Inr False)"
  using assms
  by (cases "last (messages state)") (auto simp: should_continue_def Let_def)

theorem should_continue_total_witness:
  "messages \<lparr>messages = [HumanMessage ''q'', ToolMessage ''call_1'' ''retriever_tool'' ''text'']\<rparr> \<noteq> []
   \<and> \<not> hasattr_tool_calls (last (messages
         \<lparr>messages = [HumanMessage ''q'', ToolMessage ''call_1'' ''retriever_tool'' ''text'']\<rparr>))
   \<and> should_continue
       \<lparr>messages = [HumanMessage ''q'', ToolMessage ''call_1'' ''retriever_tool'' ''text'']\<rparr>
     = Inr False"
proof -
  have h: "messages \<lparr>messages = [HumanMessage ''q'', ToolMessage ''call_1'' ''retriever_tool'' ''text'']\<rparr>
             \<noteq> []" by simp
  have n: "\<not> hasattr_tool_calls (last (messages
         \<lparr>messages = [HumanMessage ''q'', ToolMessage ''call_1'' ''retriever_tool'' ''text'']\<rparr>))"
    by simp
  from should_continue_total [OF h] n
  have "should_continue
       \<lparr>messages = [HumanMessage ''q'', ToolMessage ''call_1'' ''retriever_tool'' ''text'']\<rparr>
     = Inr False" by blast
  with h n show ?thesis by blast
qed

end
